theory Spec2Isabelle
  imports Complex_Main "HOL-Library.Sublist"
begin

section \<open>The panic button page: data\<close>

text \<open>
  The page component \<^verbatim>\<open>Page\<close> keeps its state in React hooks. The log entry type,
  with the six literal kinds of its \<^verbatim>\<open>type\<close> field.
\<close>

datatype LogType =
  Log_armed | Log_disarmed | Log_triggered | Log_cancelled | Log_location | Log_note

record LogEntry =
  log_id :: string
  log_type :: LogType
  message :: string
  timestamp :: string

text \<open>
  What the browser supplies and the component only reads: whether
  \<^verbatim>\<open>"geolocation" in navigator\<close> holds, whether an \<^verbatim>\<open>AudioContext\<close> constructor exists,
  whether \<^verbatim>\<open>navigator.share\<close> exists, the successive results of \<^verbatim>\<open>crypto.randomUUID()\<close>
  and of \<^verbatim>\<open>new Date().toISOString()\<close> (indexed by the number of entries created so far)
  and \<^verbatim>\<open>Number.prototype.toFixed(5)\<close>.
\<close>

record env =
  hasGeolocation :: bool
  hasAudioContext :: bool
  hasShare :: bool
  randomUUID :: "nat \<Rightarrow> string"
  toISOString :: "nat \<Rightarrow> string"
  toFixed5 :: "real \<Rightarrow> string"

text \<open>
  The component state. The first five fields are the \<^verbatim>\<open>useState\<close> / \<^verbatim>\<open>useLocalStorage\<close>
  cells; \<open>audioCtx\<close> says that \<^verbatim>\<open>audioCtxRef.current\<close> is not null (the oscillator and gain
  refs are set and cleared together with it). The timer service is explicit: \<open>pending\<close> holds
  the ids of the timeouts that are scheduled and neither fired nor cleared, \<open>effectTimer\<close> is
  the id captured by the cleanup closure of the last run of the countdown effect, and
  \<open>nextTimer\<close> the id the next \<^verbatim>\<open>setTimeout\<close> returns. \<open>geoPending\<close> counts the calls of
  \<^verbatim>\<open>getCurrentPosition\<close> whose callback has not run yet, \<open>draws\<close> the log entries created.
  Two counters observe the run: \<open>oscStarts\<close> counts the calls of \<^verbatim>\<open>osc.start()\<close> and
  \<open>fired\<close> the executions of the branch of the countdown effect that sets the triggered
  flag. The volume, the note, the wake lock and the vibration effect are left out: no
  transition of the flags, the countdown or the log reads them.
\<close>

record state =
  isArmed :: bool
  isTriggered :: bool
  countdown :: "int option"
  logs :: "LogEntry list"
  coords :: "(real \<times> real) option"
  audioCtx :: bool
  pending :: "nat list"
  effectTimer :: "nat option"
  nextTimer :: nat
  geoPending :: nat
  draws :: nat
  oscStarts :: nat
  fired :: nat

definition initial :: state where
  "initial = \<lparr> isArmed = False, isTriggered = False, countdown = None, logs = [],
     coords = None, audioCtx = False, pending = [], effectTimer = None, nextTimer = 0,
     geoPending = 0, draws = 0, oscStarts = 0, fired = 0 \<rparr>"

text \<open>
  The mode is not stored; the page derives it where it shows it. The status line and the
  \<^verbatim>\<open>Mode:\<close> field read \<^verbatim>\<open>isTriggered ? "ALARM" : isArmed ? "Armed" : "Disarmed"\<close>, and the
  colour of the main button tests \<^verbatim>\<open>isTriggered\<close> before \<^verbatim>\<open>countdown !== null\<close>; the
  counting-down face of the button is the case \<^verbatim>\<open>countdown !== null\<close>.
\<close>

datatype AlertMode = Disarmed | Armed | CountingDown | Triggered

definition mode :: "state \<Rightarrow> AlertMode" where
  "mode s =
     (if isTriggered s then Triggered
      else if countdown s \<noteq> None then CountingDown
      else if isArmed s then Armed
      else Disarmed)"

section \<open>The callbacks\<close>

text \<open>\<^verbatim>\<open>addLog\<close>: the new entry goes in front of the previous list.\<close>

definition addLog :: "env \<Rightarrow> LogType \<Rightarrow> string \<Rightarrow> state \<Rightarrow> state" where
  "addLog e ty msg s =
     s\<lparr> logs := \<lparr> log_id = randomUUID e (draws s), log_type = ty, message = msg,
                   timestamp = toISOString e (draws s) \<rparr> # logs s,
        draws := Suc (draws s) \<rparr>"

text \<open>
  \<^verbatim>\<open>startAlarm\<close> returns at once when an audio context exists. Without a constructor the
  \<^verbatim>\<open>new\<close> throws inside the async function and no ref is set.
\<close>

definition startAlarm :: "env \<Rightarrow> state \<Rightarrow> state" where
  "startAlarm e s =
     (if audioCtx s then s
      else if \<not> hasAudioContext e then s
      else s\<lparr> audioCtx := True, oscStarts := Suc (oscStarts s) \<rparr>)"

definition stopAlarm :: "state \<Rightarrow> state" where
  "stopAlarm s = s\<lparr> audioCtx := False \<rparr>"

text \<open>
  \<^verbatim>\<open>obtainLocation\<close> and the two callbacks it hands to \<^verbatim>\<open>getCurrentPosition\<close>. A callback
  runs later, as an event of its own, and only for a request that is in flight.
\<close>

definition obtainLocation :: "env \<Rightarrow> state \<Rightarrow> state" where
  "obtainLocation e s =
     (if \<not> hasGeolocation e then s else s\<lparr> geoPending := Suc (geoPending s) \<rparr>)"

definition positionSuccess :: "env \<Rightarrow> real \<Rightarrow> real \<Rightarrow> state \<Rightarrow> state" where
  "positionSuccess e lat lng s =
     (if geoPending s = 0 then s
      else addLog e Log_location
             (''Location updated ('' @ toFixed5 e lat @ '', '' @ toFixed5 e lng @ '')'')
             (s\<lparr> geoPending := geoPending s - 1, coords := Some (lat, lng) \<rparr>))"

definition positionError :: "env \<Rightarrow> state \<Rightarrow> state" where
  "positionError e s =
     (if geoPending s = 0 then s
      else addLog e Log_location ''Location access denied''
             (s\<lparr> geoPending := geoPending s - 1 \<rparr>))"

text \<open>
  \<^verbatim>\<open>shareAlert\<close> and \<^verbatim>\<open>copyMessage\<close>; the flag says whether the clipboard write succeeded
  (a failure is caught and ignored).
\<close>

definition shareAlert :: "env \<Rightarrow> bool \<Rightarrow> state \<Rightarrow> state" where
  "shareAlert e ok s =
     (if hasShare e then s
      else if ok then addLog e Log_note ''Alert message copied to clipboard'' s
      else s)"

definition copyMessage :: "env \<Rightarrow> bool \<Rightarrow> state \<Rightarrow> state" where
  "copyMessage e ok s =
     (if ok then addLog e Log_note ''Alert message copied to clipboard'' s else s)"

text \<open>The five intents.\<close>

definition arm :: "env \<Rightarrow> state \<Rightarrow> state" where
  "arm e s = obtainLocation e (addLog e Log_armed ''System armed'' (s\<lparr> isArmed := True \<rparr>))"

definition disarm :: "env \<Rightarrow> state \<Rightarrow> state" where
  "disarm e s =
     (let s1 = addLog e Log_disarmed ''System disarmed'' (s\<lparr> isArmed := False \<rparr>);
          s2 = s1\<lparr> countdown := None \<rparr>
      in if isTriggered s
         then addLog e Log_cancelled ''Alarm cancelled'' (stopAlarm (s2\<lparr> isTriggered := False \<rparr>))
         else s2)"

definition trigger :: "env \<Rightarrow> state \<Rightarrow> state" where
  "trigger e s =
     (let s1 = (if \<not> isArmed s then arm e s else s)
      in addLog e Log_triggered ''Panic sequence initiated (3s)'' (s1\<lparr> countdown := Some 3 \<rparr>))"

definition cancelCountdown :: "env \<Rightarrow> state \<Rightarrow> state" where
  "cancelCountdown e s = addLog e Log_cancelled ''Countdown cancelled'' (s\<lparr> countdown := None \<rparr>)"

definition stop :: "env \<Rightarrow> state \<Rightarrow> state" where
  "stop e s = addLog e Log_cancelled ''Alarm stopped'' (stopAlarm (s\<lparr> isTriggered := False \<rparr>))"

section \<open>The countdown effect and the timer\<close>

text \<open>
  The cleanup of the countdown effect clears the timeout its last run scheduled. The effect
  body follows: nothing for \<^verbatim>\<open>null\<close>; at zero or below the triggered flag is set, the
  countdown cleared, the alarm started and a location asked for; otherwise a one-second
  timeout is scheduled.
\<close>

definition cleanup :: "state \<Rightarrow> state" where
  "cleanup s =
     (case effectTimer s of
        None \<Rightarrow> s
      | Some t \<Rightarrow> s\<lparr> pending := removeAll t (pending s), effectTimer := None \<rparr>)"

definition countdownEffect :: "env \<Rightarrow> state \<Rightarrow> state" where
  "countdownEffect e s =
     (case countdown s of
        None \<Rightarrow> s
      | Some c \<Rightarrow>
          if c \<le> 0
          then obtainLocation e (startAlarm e
                 (s\<lparr> isTriggered := True, countdown := None, fired := Suc (fired s) \<rparr>))
          else s\<lparr> pending := pending s @ [nextTimer s], effectTimer := Some (nextTimer s),
                  nextTimer := Suc (nextTimer s) \<rparr>)"

text \<open>
  After a handler has run React renders again and runs the countdown effect when its
  dependency \<^verbatim>\<open>countdown\<close> differs from the previous render (the other dependencies do not
  change here). The zero branch changes \<^verbatim>\<open>countdown\<close> itself, so one more pass follows it.
\<close>

definition rerender :: "env \<Rightarrow> state \<Rightarrow> state \<Rightarrow> state" where
  "rerender e prev s =
     (if countdown s = countdown prev then s
      else let s1 = countdownEffect e (cleanup s)
           in if countdown s1 = countdown s then s1 else countdownEffect e (cleanup s1))"

text \<open>
  The timeout callback \<^verbatim>\<open>setCountdown((c) => (c ?? 0) - 1)\<close>, run for the oldest pending
  timeout; with none pending nothing fires.
\<close>

definition timeoutFires :: "state \<Rightarrow> state" where
  "timeoutFires s =
     (case pending s of
        [] \<Rightarrow> s
      | t # ts \<Rightarrow>
          s\<lparr> pending := ts,
             countdown := Some ((case countdown s of None \<Rightarrow> 0 | Some c \<Rightarrow> c) - 1) \<rparr>)"

section \<open>Events\<close>

datatype intent = Arm | Disarm | Trigger | CancelCountdown | Stop

datatype event =
    Intent intent
  | ClickToggle
  | ClickMain
  | KeyEscape
  | KeySpace
  | Tick
  | RefreshLocation
  | PositionSuccess real real
  | PositionError
  | ShareAlert bool
  | CopyMessage bool

fun perform :: "env \<Rightarrow> intent \<Rightarrow> state \<Rightarrow> state" where
  "perform e Arm s = arm e s"
| "perform e Disarm s = disarm e s"
| "perform e Trigger s = trigger e s"
| "perform e CancelCountdown s = cancelCountdown e s"
| "perform e Stop s = stop e s"

text \<open>
  The controls: the arm/disarm button (\<^verbatim>\<open>isArmed ? disarm : arm\<close>), the main button
  (\<^verbatim>\<open>countdown !== null ? cancelCountdown : isTriggered ? stop : trigger\<close>) and the two keys
  of the \<^verbatim>\<open>keydown\<close> listener.
\<close>

definition clickToggle :: "env \<Rightarrow> state \<Rightarrow> state" where
  "clickToggle e s = (if isArmed s then disarm e s else arm e s)"

definition clickMain :: "env \<Rightarrow> state \<Rightarrow> state" where
  "clickMain e s =
     (if countdown s \<noteq> None then cancelCountdown e s
      else if isTriggered s then stop e s
      else trigger e s)"

definition keyEscape :: "env \<Rightarrow> state \<Rightarrow> state" where
  "keyEscape e s =
     (let s1 = (if countdown s \<noteq> None then cancelCountdown e s else s)
      in if isTriggered s then stop e s1 else s1)"

definition keySpace :: "env \<Rightarrow> state \<Rightarrow> state" where
  "keySpace e s = trigger e s"

fun handle :: "env \<Rightarrow> event \<Rightarrow> state \<Rightarrow> state" where
  "handle e (Intent i) s = perform e i s"
| "handle e ClickToggle s = clickToggle e s"
| "handle e ClickMain s = clickMain e s"
| "handle e KeyEscape s = keyEscape e s"
| "handle e KeySpace s = keySpace e s"
| "handle e Tick s = timeoutFires s"
| "handle e RefreshLocation s = obtainLocation e s"
| "handle e (PositionSuccess lat lng) s = positionSuccess e lat lng s"
| "handle e PositionError s = positionError e s"
| "handle e (ShareAlert ok) s = shareAlert e ok s"
| "handle e (CopyMessage ok) s = copyMessage e ok s"

definition step :: "env \<Rightarrow> state \<Rightarrow> event \<Rightarrow> state" where
  "step e s ev = rerender e s (handle e ev s)"

fun run :: "env \<Rightarrow> state \<Rightarrow> event list \<Rightarrow> state" where
  "run e s [] = s"
| "run e s (ev # evs) = run e (step e s ev) evs"

text \<open>A browser with every interface present, for the concrete runs below.\<close>

definition browser :: env where
  "browser = \<lparr> hasGeolocation = True, hasAudioContext = True, hasShare = True,
     randomUUID = (\<lambda>n. ''uuid''), toISOString = (\<lambda>n. ''now''), toFixed5 = (\<lambda>x. ''0.00000'') \<rparr>"

section \<open>Auxiliary notions\<close>

text \<open>The entry that \<open>addLog\<close> builds as the \<open>n\<close>-th entry of the session.\<close>

definition newEntry :: "env \<Rightarrow> nat \<Rightarrow> LogType \<Rightarrow> string \<Rightarrow> LogEntry" where
  "newEntry e n ty msg =
     \<lparr> log_id = randomUUID e n, log_type = ty, message = msg, timestamp = toISOString e n \<rparr>"

text \<open>
  What every state reached by the page satisfies: an audio context exists only while the
  triggered flag is set, a countdown runs only while armed, its value is between 1 and 3
  once the effects have settled, and the only pending timeout is the one the countdown
  effect scheduled last (none without a countdown).
\<close>

definition consistent :: "state \<Rightarrow> bool" where
  "consistent s =
     ((audioCtx s \<longrightarrow> isTriggered s) \<and>
      (countdown s \<noteq> None \<longrightarrow> isArmed s) \<and>
      (case countdown s of
         None \<Rightarrow> pending s = []
       | Some c \<Rightarrow> 0 < c \<and> c \<le> 3 \<and>
           (case effectTimer s of None \<Rightarrow> False | Some t \<Rightarrow> pending s = [t])))"

text \<open>
  What a handler other than the timeout callback does to a consistent state \<open>s\<close>: it leaves
  the timers alone and sets the countdown, if at all, to \<^verbatim>\<open>null\<close> or to 3.
\<close>

definition sameTimers :: "state \<Rightarrow> state \<Rightarrow> bool" where
  "sameTimers s t =
     (pending t = pending s \<and> effectTimer t = effectTimer s \<and> nextTimer t = nextTimer s)"

definition calm :: "state \<Rightarrow> state \<Rightarrow> bool" where
  "calm s t =
     (sameTimers s t \<and> (audioCtx t \<longrightarrow> isTriggered t) \<and> (countdown t \<noteq> None \<longrightarrow> isArmed t) \<and>
      (countdown t = countdown s \<or> countdown t = None \<or> countdown t = Some 3))"

section \<open>Reachable states are consistent\<close>

lemma consistent_initial: "consistent initial"
  by (simp add: consistent_def initial_def)

lemma rerender_consistent:
  assumes "consistent prev" "calm prev s"
  shows "consistent (rerender e prev s)"
proof (cases "countdown s = countdown prev")
  case True
  with assms show ?thesis
    by (auto simp: rerender_def consistent_def calm_def sameTimers_def split: option.splits)
next
  case False
  note neq = this
  show ?thesis
  proof (cases "countdown s")
    case None
    with assms neq show ?thesis
      by (auto simp: rerender_def consistent_def calm_def sameTimers_def cleanup_def countdownEffect_def split: option.splits)
  next
    case (Some c)
    with assms neq have c: "c = 3" by (auto simp: calm_def)
    with Some assms neq show ?thesis
      by (auto simp: rerender_def consistent_def calm_def sameTimers_def cleanup_def countdownEffect_def Let_def split: option.splits)
  qed
qed

lemma calm_arm: "consistent s \<Longrightarrow> calm s (arm e s)"
  by (auto simp: calm_def sameTimers_def consistent_def arm_def obtainLocation_def addLog_def)

lemma calm_disarm: "consistent s \<Longrightarrow> calm s (disarm e s)"
  by (auto simp: calm_def sameTimers_def consistent_def disarm_def stopAlarm_def addLog_def Let_def)

lemma calm_trigger: "consistent s \<Longrightarrow> calm s (trigger e s)"
  by (auto simp: calm_def sameTimers_def consistent_def trigger_def arm_def obtainLocation_def addLog_def Let_def)

lemma calm_cancelCountdown: "consistent s \<Longrightarrow> calm s (cancelCountdown e s)"
  by (auto simp: calm_def sameTimers_def consistent_def cancelCountdown_def addLog_def)

lemma calm_stop: "consistent s \<Longrightarrow> calm s (stop e s)"
  by (auto simp: calm_def sameTimers_def consistent_def stop_def stopAlarm_def addLog_def)

lemma calm_perform: "consistent s \<Longrightarrow> calm s (perform e i s)"
  by (cases i) (simp_all add: calm_arm calm_disarm calm_trigger calm_cancelCountdown calm_stop)


lemma calm_refl: "consistent s \<Longrightarrow> calm s s"
  by (auto simp: calm_def sameTimers_def consistent_def)

lemma calm_obtainLocation: "consistent s \<Longrightarrow> calm s (obtainLocation e s)"
  by (auto simp: calm_def sameTimers_def consistent_def obtainLocation_def)

lemma calm_positionSuccess: "consistent s \<Longrightarrow> calm s (positionSuccess e lat lng s)"
  by (auto simp: calm_def sameTimers_def consistent_def positionSuccess_def addLog_def)

lemma calm_positionError: "consistent s \<Longrightarrow> calm s (positionError e s)"
  by (auto simp: calm_def sameTimers_def consistent_def positionError_def addLog_def)

lemma calm_shareAlert: "consistent s \<Longrightarrow> calm s (shareAlert e ok s)"
  by (auto simp: calm_def sameTimers_def consistent_def shareAlert_def addLog_def)

lemma calm_copyMessage: "consistent s \<Longrightarrow> calm s (copyMessage e ok s)"
  by (auto simp: calm_def sameTimers_def consistent_def copyMessage_def addLog_def)

lemma calm_clickToggle: "consistent s \<Longrightarrow> calm s (clickToggle e s)"
  by (simp add: clickToggle_def calm_arm calm_disarm)

lemma calm_clickMain: "consistent s \<Longrightarrow> calm s (clickMain e s)"
  by (simp add: clickMain_def calm_cancelCountdown calm_stop calm_trigger)

lemma calm_keySpace: "consistent s \<Longrightarrow> calm s (keySpace e s)"
  by (simp add: keySpace_def calm_trigger)

lemma calm_keyEscape: "consistent s \<Longrightarrow> calm s (keyEscape e s)"
  by (auto simp: calm_def sameTimers_def consistent_def keyEscape_def cancelCountdown_def
      stop_def stopAlarm_def addLog_def Let_def)

lemma consistent_tick: "consistent s \<Longrightarrow> consistent (step e s Tick)"
proof (cases "countdown s")
  case None
  assume "consistent s"
  with None show ?thesis
    by (simp add: consistent_def step_def timeoutFires_def rerender_def)
next
  case (Some c)
  assume "consistent s"
  with Some obtain t where t: "pending s = [t]" "effectTimer s = Some t" and c: "0 < c" "c \<le> 3"
    and a: "isArmed s" "audioCtx s \<longrightarrow> isTriggered s"
    by (auto simp: consistent_def split: option.splits)
  show ?thesis
  proof (cases "c = 1")
    case True
    with Some t a show ?thesis
      by (simp add: consistent_def step_def timeoutFires_def rerender_def cleanup_def
          countdownEffect_def startAlarm_def obtainLocation_def Let_def)
  next
    case False
    with c have "1 < c" by simp
    with Some t a c show ?thesis
      by (simp add: consistent_def step_def timeoutFires_def rerender_def cleanup_def
          countdownEffect_def Let_def)
  qed
qed

lemma consistent_step: "consistent s \<Longrightarrow> consistent (step e s ev)"
proof (cases ev)
  case Tick
  assume "consistent s"
  with Tick show ?thesis by (simp add: consistent_tick)
qed (simp_all add: step_def rerender_consistent calm_perform calm_clickToggle calm_clickMain
      calm_keyEscape calm_keySpace calm_obtainLocation calm_positionSuccess calm_positionError
      calm_shareAlert calm_copyMessage)

lemma consistent_run: "consistent s \<Longrightarrow> consistent (run e s evs)"
  by (induction evs arbitrary: s) (simp_all add: consistent_step)

section \<open>The event log\<close>

lemma addLog_newEntry:
  "addLog e ty msg s = s\<lparr> logs := newEntry e (draws s) ty msg # logs s, draws := Suc (draws s) \<rparr>"
  by (simp add: addLog_def newEntry_def)

lemma logs_cleanup [simp]: "logs (cleanup s) = logs s"
  by (simp add: cleanup_def split: option.splits)

lemma logs_countdownEffect [simp]: "logs (countdownEffect e s) = logs s"
  by (simp add: countdownEffect_def startAlarm_def obtainLocation_def split: option.splits)

lemma logs_rerender [simp]: "logs (rerender e prev s) = logs s"
  by (simp add: rerender_def Let_def)

lemma logs_step: "logs (step e s ev) = logs (handle e ev s)"
  by (simp add: step_def)

lemma coords_cleanup [simp]: "coords (cleanup s) = coords s"
  by (simp add: cleanup_def split: option.splits)

lemma coords_countdownEffect [simp]: "coords (countdownEffect e s) = coords s"
  by (simp add: countdownEffect_def startAlarm_def obtainLocation_def split: option.splits)

lemma coords_rerender [simp]: "coords (rerender e prev s) = coords s"
  by (simp add: rerender_def Let_def)

lemma rerender_same: "countdown s = countdown prev \<Longrightarrow> rerender e prev s = s"
  by (simp add: rerender_def)

lemma logs_perform:
  "\<exists>new. logs (perform e i s) = new @ logs s \<and> length new \<le> 2"
  by (cases i) (simp_all add: arm_def disarm_def trigger_def cancelCountdown_def stop_def
      stopAlarm_def obtainLocation_def addLog_def Let_def)

lemma logs_handle:
  "\<exists>new. logs (handle e ev s) = new @ logs s \<and> length new \<le> 2"
proof (cases ev)
  case (Intent i)
  then show ?thesis using logs_perform [of e i s] by simp
next
  case KeyEscape
  then show ?thesis
    by (simp add: keyEscape_def cancelCountdown_def stop_def stopAlarm_def addLog_def Let_def)
qed (simp_all add: clickToggle_def clickMain_def keySpace_def arm_def disarm_def trigger_def
      cancelCountdown_def stop_def stopAlarm_def obtainLocation_def addLog_def Let_def
      timeoutFires_def positionSuccess_def positionError_def shareAlert_def copyMessage_def
      split: list.splits)

lemma logs_run_suffix: "suffix (logs s) (logs (run e s evs))"
proof (induction evs arbitrary: s)
  case Nil
  show ?case by simp
next
  case (Cons ev evs)
  obtain new where "logs (step e s ev) = new @ logs s"
    using logs_handle [of e ev s] by (auto simp: logs_step)
  then have "suffix (logs s) (logs (step e s ev))" by (simp add: suffix_def)
  with Cons.IH [of "step e s ev"] show ?case by (auto intro: suffix_order.trans)
qed

text \<open>
  Claim C9. The event log is append-only and newest first: \<open>addLog\<close> puts its entry at the
  head, every event leaves the previous log as it was and only puts new entries (at most
  two) in front of it, and so does every sequence of events: no entry is changed, removed
  or reordered.
\<close>

theorem C9_log_append_only:
  "logs (addLog e ty msg s) = newEntry e (draws s) ty msg # logs s \<and>
   (\<exists>new. logs (step e s ev) = new @ logs s \<and> length new \<le> 2) \<and>
   (\<exists>new. logs (run e s evs) = new @ logs s)"
proof -
  have "\<exists>new. logs (run e s evs) = new @ logs s"
    using logs_run_suffix [of s e evs] by (auto simp: suffix_def)
  then show ?thesis
    using logs_handle [of e ev s] by (simp add: logs_step addLog_newEntry)
qed

text \<open>
  Claim C5. \<open>trigger\<close> from the Disarmed mode appends two entries, \<open>armed\<close> and then
  \<open>triggered\<close>, so that \<open>triggered\<close> is at the head of the log and \<open>armed\<close> behind it;
  from the Armed mode it appends the single entry \<open>triggered\<close>.
\<close>

theorem C5_trigger_log_entries:
  "(mode s = Disarmed \<longrightarrow>
      logs (step e s (Intent Trigger)) =
        newEntry e (Suc (draws s)) Log_triggered ''Panic sequence initiated (3s)'' #
        newEntry e (draws s) Log_armed ''System armed'' # logs s) \<and>
   (mode s = Armed \<longrightarrow>
      logs (step e s (Intent Trigger)) =
        newEntry e (draws s) Log_triggered ''Panic sequence initiated (3s)'' # logs s)"
  by (simp add: logs_step mode_def trigger_def arm_def obtainLocation_def addLog_newEntry
      Let_def split: if_splits)

theorem C5_trigger_log_entries_witness:
  "mode initial = Disarmed \<and>
   map log_type (logs (step browser initial (Intent Trigger))) = [Log_triggered, Log_armed] \<and>
   mode (step browser initial (Intent Arm)) = Armed \<and>
   map log_type (logs (step browser (step browser initial (Intent Arm)) (Intent Trigger))) =
     [Log_triggered, Log_armed]"
proof -
  have d: "mode initial = Disarmed" by (simp add: mode_def initial_def)
  have a: "mode (step browser initial (Intent Arm)) = Armed"
    by (simp add: mode_def initial_def step_def rerender_def arm_def obtainLocation_def addLog_def)
  have l: "logs (step browser initial (Intent Arm)) = [newEntry browser 0 Log_armed ''System armed'']"
      "draws (step browser initial (Intent Arm)) = 1"
    by (simp_all add: initial_def step_def rerender_def arm_def obtainLocation_def addLog_newEntry)
  show ?thesis
    using C5_trigger_log_entries [of initial browser]
      C5_trigger_log_entries [of "step browser initial (Intent Arm)" browser] d a l
    by (simp add: newEntry_def initial_def)
qed

text \<open>
  Claim C10. Without the geolocation interface a location fetch returns with the state as
  it was: no log entry, the stored coordinate untouched, no request in flight. With the
  interface present, a request that is then denied appends a \<open>location\<close> entry with the
  denial message and leaves the coordinate as it was.
\<close>

theorem C10_geolocation_unavailable:
  "(\<not> hasGeolocation e \<longrightarrow>
      obtainLocation e s = s \<and> step e s RefreshLocation = s) \<and>
   (hasGeolocation e \<longrightarrow>
      logs (step e (step e s RefreshLocation) PositionError) =
        newEntry e (draws s) Log_location ''Location access denied'' # logs s \<and>
      coords (step e (step e s RefreshLocation) PositionError) = coords s)"
  by (simp add: step_def rerender_def obtainLocation_def positionError_def addLog_newEntry)

theorem C10_geolocation_unavailable_witness:
  "\<not> hasGeolocation (browser\<lparr> hasGeolocation := False \<rparr>) \<and>
   step (browser\<lparr> hasGeolocation := False \<rparr>) initial RefreshLocation = initial \<and>
   hasGeolocation browser \<and>
   map message (logs (step browser (step browser initial RefreshLocation) PositionError)) =
     [''Location access denied'']"
  using C10_geolocation_unavailable [of "browser\<lparr> hasGeolocation := False \<rparr>" initial]
    C10_geolocation_unavailable [of browser initial]
  by (simp add: browser_def initial_def newEntry_def)

section \<open>Timer ticks\<close>

lemma run_append: "run e s (xs @ ys) = run e (run e s xs) ys"
  by (induction xs arbitrary: s) simp_all

lemma rerender_None:
  "countdown s = None \<Longrightarrow>
   rerender e prev s = (if countdown prev = None then s else cleanup s)"
  by (simp add: rerender_def countdownEffect_def cleanup_def Let_def split: option.splits)

lemma tick_idle: "pending s = [] \<Longrightarrow> step e s Tick = s"
  by (simp add: step_def timeoutFires_def rerender_def)

lemma ticks_idle: "pending s = [] \<Longrightarrow> run e s (replicate n Tick) = s"
  by (induction n) (simp_all add: tick_idle)

lemma consistent_Some:
  assumes "consistent s" "countdown s = Some c"
  obtains t where "pending s = [t]" "effectTimer s = Some t" "0 < c" "c \<le> 3" "isArmed s"
    "audioCtx s \<longrightarrow> isTriggered s"
  using assms by (auto simp: consistent_def split: option.splits)

lemma tick_decrements:
  assumes "consistent s" "countdown s = Some c" "1 < c"
  shows "step e s Tick =
    s\<lparr> countdown := Some (c - 1), pending := [nextTimer s],
       effectTimer := Some (nextTimer s), nextTimer := Suc (nextTimer s) \<rparr>"
proof -
  from assms(1,2) obtain t where "pending s = [t]" "effectTimer s = Some t"
    by (rule consistent_Some)
  with assms(2,3) show ?thesis
    by (simp add: step_def timeoutFires_def rerender_def cleanup_def countdownEffect_def Let_def)
qed

lemma tick_reaches_zero:
  assumes "consistent s" "countdown s = Some 1"
  shows "step e s Tick =
    obtainLocation e (startAlarm e
      (s\<lparr> isTriggered := True, countdown := None, pending := [], effectTimer := None,
          fired := Suc (fired s) \<rparr>))"
proof -
  from assms obtain t where "pending s = [t]" "effectTimer s = Some t"
    by (rule consistent_Some)
  with assms(2) show ?thesis
    by (simp add: step_def timeoutFires_def rerender_def cleanup_def countdownEffect_def
        startAlarm_def obtainLocation_def Let_def)
qed

lemma timeoutFires_countdown:
  assumes "consistent s" "countdown s = Some c"
  shows "countdown (timeoutFires s) = Some (c - 1)"
proof -
  from assms obtain t where "pending s = [t]" by (rule consistent_Some)
  with assms(2) show ?thesis by (simp add: timeoutFires_def)
qed

text \<open>
  Claim C6. In a state the page can reach whose mode is CountingDown, the countdown is at
  least 1 and the timeout callback takes exactly 1 off it. While the result is above zero
  the page goes on counting down and nothing else happens. When it is zero (the countdown
  was 1), the mode becomes Triggered, the countdown null, the oscillator is started once
  more than before (exactly once, on a browser with an audio context) and one more location
  request is in flight (on a browser with geolocation).
\<close>

theorem C6_timer_tick:
  assumes "s = run e initial evs" and "mode s = CountingDown" and "countdown s = Some c"
  shows "countdown (timeoutFires s) = Some (c - 1) \<and>
    (1 < c \<longrightarrow>
       mode (step e s Tick) = CountingDown \<and> countdown (step e s Tick) = Some (c - 1) \<and>
       fired (step e s Tick) = fired s \<and> oscStarts (step e s Tick) = oscStarts s \<and>
       geoPending (step e s Tick) = geoPending s) \<and>
    (c = 1 \<longrightarrow>
       mode (step e s Tick) = Triggered \<and> countdown (step e s Tick) = None \<and>
       fired (step e s Tick) = Suc (fired s) \<and>
       audioCtx (step e s Tick) = hasAudioContext e \<and>
       oscStarts (step e s Tick) = oscStarts s + (if hasAudioContext e then 1 else 0) \<and>
       geoPending (step e s Tick) = geoPending s + (if hasGeolocation e then 1 else 0)) \<and>
    0 < c"
proof -
  have cons: "consistent s"
    using assms(1) by (simp add: consistent_run consistent_initial)
  from cons assms(3) obtain t where c: "0 < c" and au: "audioCtx s \<longrightarrow> isTriggered s"
    by (rule consistent_Some)
  from assms(2) have nt: "\<not> isTriggered s" by (simp add: mode_def split: if_splits)
  with au have na: "\<not> audioCtx s" by simp
  have 1: "countdown (timeoutFires s) = Some (c - 1)"
    using cons assms(3) by (rule timeoutFires_countdown)
  have 2: "mode (step e s Tick) = CountingDown \<and> countdown (step e s Tick) = Some (c - 1) \<and>
       fired (step e s Tick) = fired s \<and> oscStarts (step e s Tick) = oscStarts s \<and>
       geoPending (step e s Tick) = geoPending s" if "1 < c"
    using tick_decrements [OF cons assms(3) that, of e] nt by (simp add: mode_def)
  have 3: "mode (step e s Tick) = Triggered \<and> countdown (step e s Tick) = None \<and>
       fired (step e s Tick) = Suc (fired s) \<and>
       audioCtx (step e s Tick) = hasAudioContext e \<and>
       oscStarts (step e s Tick) = oscStarts s + (if hasAudioContext e then 1 else 0) \<and>
       geoPending (step e s Tick) = geoPending s + (if hasGeolocation e then 1 else 0)" if "c = 1"
  proof -
    from that assms(3) have "countdown s = Some 1" by simp
    from tick_reaches_zero [OF cons this, of e] na show ?thesis
      by (simp add: mode_def startAlarm_def obtainLocation_def)
  qed
  from 1 2 3 c show ?thesis by blast
qed

theorem C6_timer_tick_witness:
  "mode (run browser initial [Intent Trigger, Tick, Tick]) = CountingDown \<and>
   countdown (run browser initial [Intent Trigger, Tick, Tick]) = Some 1 \<and>
   mode (run browser initial [Intent Trigger, Tick, Tick, Tick]) = Triggered \<and>
   countdown (run browser initial [Intent Trigger, Tick, Tick, Tick]) = None \<and>
   oscStarts (run browser initial [Intent Trigger, Tick, Tick, Tick]) = 1"
proof -
  let ?s = "run browser initial [Intent Trigger, Tick, Tick]"
  have m: "mode ?s = CountingDown" and c: "countdown ?s = Some 1"
    and o: "oscStarts ?s = 0"
    by (simp_all add: mode_def initial_def browser_def step_def rerender_def cleanup_def
        countdownEffect_def timeoutFires_def trigger_def arm_def obtainLocation_def
        addLog_def Let_def)
  have r: "run browser initial [Intent Trigger, Tick, Tick, Tick] = step browser ?s Tick"
    by simp
  from C6_timer_tick [OF refl m c] m c o show ?thesis
    unfolding r by (simp add: browser_def)
qed

section \<open>Disarming\<close>

lemma disarm_fields:
  "countdown (disarm e s) = None" "\<not> isArmed (disarm e s)" "\<not> isTriggered (disarm e s)"
  "pending (disarm e s) = pending s" "effectTimer (disarm e s) = effectTimer s"
  "audioCtx (disarm e s) = (audioCtx s \<and> \<not> isTriggered s)"
  "logs (disarm e s) =
     (if isTriggered s
      then [newEntry e (Suc (draws s)) Log_cancelled ''Alarm cancelled'',
            newEntry e (draws s) Log_disarmed ''System disarmed'']
      else [newEntry e (draws s) Log_disarmed ''System disarmed'']) @ logs s"
  by (simp_all add: disarm_def stopAlarm_def addLog_newEntry Let_def)

lemma cleanup_fields:
  "countdown (cleanup s) = countdown s" "isArmed (cleanup s) = isArmed s"
  "isTriggered (cleanup s) = isTriggered s" "audioCtx (cleanup s) = audioCtx s"
  "fired (cleanup s) = fired s" "oscStarts (cleanup s) = oscStarts s"
  by (simp_all add: cleanup_def split: option.splits)

lemma cleanup_pending:
  "consistent s \<Longrightarrow> pending t = pending s \<Longrightarrow> effectTimer t = effectTimer s \<Longrightarrow>
   countdown s \<noteq> None \<Longrightarrow> pending (cleanup t) = []"
  by (auto simp: consistent_def cleanup_def split: option.splits)

text \<open>
  Claim C7. In every state the page can reach, \<open>disarm\<close> leaves the mode Disarmed, the
  countdown null, no timeout pending and no audio context. It always appends a \<open>disarmed\<close>
  entry; when the mode before was Triggered, the only mode in which the alarm sounds, it
  also stops the alarm and appends a \<open>cancelled\<close> entry above the \<open>disarmed\<close> one.
\<close>

theorem C7_disarm:
  assumes "s = run e initial evs"
  shows "mode (step e s (Intent Disarm)) = Disarmed \<and>
    countdown (step e s (Intent Disarm)) = None \<and>
    pending (step e s (Intent Disarm)) = [] \<and>
    \<not> audioCtx (step e s (Intent Disarm)) \<and>
    (audioCtx s \<longrightarrow> mode s = Triggered) \<and>
    logs (step e s (Intent Disarm)) =
      (if mode s = Triggered
       then [newEntry e (Suc (draws s)) Log_cancelled ''Alarm cancelled'',
             newEntry e (draws s) Log_disarmed ''System disarmed'']
       else [newEntry e (draws s) Log_disarmed ''System disarmed'']) @ logs s"
proof -
  have cons: "consistent s"
    using assms by (simp add: consistent_run consistent_initial)
  then have au: "audioCtx s \<longrightarrow> isTriggered s" by (simp add: consistent_def)
  have tr: "(mode s = Triggered) = isTriggered s" by (simp add: mode_def)
  have st: "step e s (Intent Disarm) =
      (if countdown s = None then disarm e s else cleanup (disarm e s))"
    by (simp add: step_def rerender_None disarm_fields)
  have p: "pending (step e s (Intent Disarm)) = []"
  proof (cases "countdown s")
    case None
    with cons st show ?thesis by (simp add: consistent_def disarm_fields)
  next
    case (Some c)
    with st cleanup_pending [OF cons, of "disarm e s"] show ?thesis
      by (simp add: disarm_fields)
  qed
  have f: "mode (step e s (Intent Disarm)) = Disarmed"
      "countdown (step e s (Intent Disarm)) = None"
      "\<not> audioCtx (step e s (Intent Disarm))"
    using au by (simp_all add: st mode_def cleanup_fields disarm_fields)
  have l: "logs (step e s (Intent Disarm)) = logs (disarm e s)"
    by (simp add: logs_step)
  from p f au show ?thesis by (simp add: l tr disarm_fields)
qed

lemmas run_defs =
  initial_def browser_def step_def rerender_def cleanup_def countdownEffect_def
  timeoutFires_def trigger_def arm_def disarm_def cancelCountdown_def stop_def
  startAlarm_def stopAlarm_def obtainLocation_def addLog_def Let_def

theorem C7_disarm_witness:
  "mode (run browser initial [Intent Trigger, Tick, Tick, Tick]) = Triggered \<and>
   audioCtx (run browser initial [Intent Trigger, Tick, Tick, Tick]) \<and>
   mode (run browser initial [Intent Trigger, Tick, Tick, Tick, Intent Disarm]) = Disarmed \<and>
   \<not> audioCtx (run browser initial [Intent Trigger, Tick, Tick, Tick, Intent Disarm]) \<and>
   map log_type (logs (run browser initial [Intent Trigger, Tick, Tick, Tick, Intent Disarm])) =
     [Log_cancelled, Log_disarmed, Log_triggered, Log_armed]"
proof -
  let ?s = "run browser initial [Intent Trigger, Tick, Tick, Tick]"
  have m: "mode ?s = Triggered" "audioCtx ?s"
    and l: "map log_type (logs ?s) = [Log_triggered, Log_armed]"
    by (simp_all add: mode_def run_defs)
  have r: "run browser initial [Intent Trigger, Tick, Tick, Tick, Intent Disarm] =
      step browser ?s (Intent Disarm)"
    by simp
  from C7_disarm [OF refl, of browser "[Intent Trigger, Tick, Tick, Tick]"] m l show ?thesis
    unfolding r by (simp add: newEntry_def)
qed

section \<open>Cancelling and restarting the countdown\<close>

lemma trigger_step:
  "countdown (step e s (Intent Trigger)) = Some 3"
  "fired (step e s (Intent Trigger)) = fired s"
  "isTriggered (step e s (Intent Trigger)) = isTriggered s"
  by (simp_all add: step_def rerender_def countdownEffect_def cleanup_fields trigger_def
      arm_def obtainLocation_def addLog_def Let_def)

lemma cancelCountdown_step:
  "countdown (step e s (Intent CancelCountdown)) = None"
  "fired (step e s (Intent CancelCountdown)) = fired s"
  "isTriggered (step e s (Intent CancelCountdown)) = isTriggered s"
  by (simp_all add: step_def rerender_None cleanup_fields cancelCountdown_def addLog_def)

lemma consistent_None: "consistent s \<Longrightarrow> countdown s = None \<Longrightarrow> pending s = []"
  by (simp add: consistent_def)

lemma ticks_before_zero:
  assumes "consistent s" "countdown s = Some c" "int n < c"
  shows "countdown (run e s (replicate n Tick)) = Some (c - int n) \<and>
         fired (run e s (replicate n Tick)) = fired s \<and>
         isTriggered (run e s (replicate n Tick)) = isTriggered s"
  using assms
proof (induction n arbitrary: s c)
  case 0
  then show ?case by simp
next
  case (Suc n)
  from Suc.prems have c: "1 < c" by simp
  let ?t = "step e s Tick"
  have t: "countdown ?t = Some (c - 1)" "fired ?t = fired s" "isTriggered ?t = isTriggered s"
    using tick_decrements [OF Suc.prems(1,2) c, of e] by simp_all
  have "consistent ?t" using Suc.prems(1) by (rule consistent_step)
  from Suc.IH [OF this t(1)] Suc.prems(3) t show ?case by simp
qed

lemma ticks_through_zero:
  assumes "consistent s" "countdown s = Some 3"
  shows "fired (run e s (replicate n Tick)) = fired s + (if 3 \<le> n then 1 else 0) \<and>
         isTriggered (run e s (replicate n Tick)) = (isTriggered s \<or> 3 \<le> n)"
proof (cases "n < 3")
  case True
  then have "int n < 3" by simp
  from ticks_before_zero [OF assms this, of e] True show ?thesis by simp
next
  case False
  then have "n = 2 + (1 + (n - 3))" by simp
  then obtain m where n: "n = 2 + (1 + m)" ..
  let ?u = "run e s (replicate 2 Tick)"
  have u: "countdown ?u = Some 1" "fired ?u = fired s" "isTriggered ?u = isTriggered s"
    using ticks_before_zero [OF assms, of 2 e] by simp_all
  have cu: "consistent ?u" using assms(1) by (rule consistent_run)
  let ?v = "step e ?u Tick"
  have v: "countdown ?v = None" "fired ?v = Suc (fired s)" "isTriggered ?v"
    using tick_reaches_zero [OF cu u(1), of e] u
    by (simp_all add: startAlarm_def obtainLocation_def)
  have "consistent ?v" using cu by (rule consistent_step)
  then have "pending ?v = []" using v(1) by (rule consistent_None)
  then have "run e ?v (replicate m Tick) = ?v" by (rule ticks_idle)
  then have "run e s (replicate n Tick) = ?v"
    unfolding n replicate_add run_append by simp
  with v False show ?thesis by simp
qed

text \<open>
  Claim C3. Trigger, cancel, trigger again, with \<open>a < 3\<close> seconds passing before the
  cancellation and any time \<open>b\<close> between the cancellation and the second trigger: after
  the cancellation no timeout is pending (the one of the first countdown was cleared) and
  nothing has fired; \<open>n\<close> seconds after the second trigger the triggering branch has run
  exactly once if \<open>n\<close> is at least 3 and not at all before, never twice.
\<close>

theorem C3_single_triggered_transition:
  assumes "a < 3"
  shows "pending (run e initial (Intent Trigger # replicate a Tick @ [Intent CancelCountdown])) = [] \<and>
    fired (run e initial (Intent Trigger # replicate a Tick @ [Intent CancelCountdown])) = 0 \<and>
    fired (run e initial (Intent Trigger # replicate a Tick @ [Intent CancelCountdown] @
             replicate b Tick @ Intent Trigger # replicate n Tick)) = (if 3 \<le> n then 1 else 0) \<and>
    isTriggered (run e initial (Intent Trigger # replicate a Tick @ [Intent CancelCountdown] @
             replicate b Tick @ Intent Trigger # replicate n Tick)) = (3 \<le> n)"
proof -
  let ?s1 = "step e initial (Intent Trigger)"
  let ?s2 = "run e ?s1 (replicate a Tick)"
  let ?s3 = "step e ?s2 (Intent CancelCountdown)"
  let ?s5 = "step e ?s3 (Intent Trigger)"
  have c1: "consistent ?s1" by (simp add: consistent_step consistent_initial)
  have f1: "fired ?s1 = 0" "\<not> isTriggered ?s1" by (simp_all add: trigger_step initial_def)
  from assms have "int a < 3" by simp
  from ticks_before_zero [OF c1 trigger_step(1) this, of e] f1
  have f2: "fired ?s2 = 0" "\<not> isTriggered ?s2" by simp_all
  have c3: "consistent ?s3" using c1 by (simp add: consistent_step consistent_run)
  have f3: "fired ?s3 = 0" "\<not> isTriggered ?s3" "countdown ?s3 = None"
    using f2 by (simp_all add: cancelCountdown_step)
  have p3: "pending ?s3 = []" using c3 f3(3) by (rule consistent_None)
  have i3: "run e ?s3 (replicate b Tick) = ?s3" using p3 by (rule ticks_idle)
  have c5: "consistent ?s5" using c3 by (rule consistent_step)
  have f5: "fired ?s5 = 0" "\<not> isTriggered ?s5" using f3 by (simp_all add: trigger_step)
  have r3: "run e initial (Intent Trigger # replicate a Tick @ [Intent CancelCountdown]) = ?s3"
    by (simp add: run_append)
  have r: "run e initial (Intent Trigger # replicate a Tick @ [Intent CancelCountdown] @
             replicate b Tick @ Intent Trigger # replicate n Tick) =
           run e ?s5 (replicate n Tick)"
    by (simp add: run_append i3)
  from ticks_through_zero [OF c5 trigger_step(1), of e n] f5 p3 f3 show ?thesis
    unfolding r r3 by simp
qed

theorem C3_single_triggered_transition_witness:
  "(1::nat) < 3 \<and>
   fired (run browser initial
     [Intent Trigger, Tick, Intent CancelCountdown, Intent Trigger, Tick, Tick, Tick, Tick]) = 1 \<and>
   isTriggered (run browser initial
     [Intent Trigger, Tick, Intent CancelCountdown, Intent Trigger, Tick, Tick, Tick, Tick])"
proof -
  have a: "(1::nat) < 3" by simp
  have r: "replicate 4 Tick = [Tick, Tick, Tick, Tick]" "replicate 1 Tick = [Tick]"
    by (simp_all add: numeral_eq_Suc)
  from C3_single_triggered_transition [OF a, of browser 0 4] a show ?thesis
    by (simp add: r del: run.simps)
qed

section \<open>Intents outside their mode\<close>

text \<open>
  The triggered flag and a running countdown exclude each other as long as \<open>trigger\<close> is
  not called while the triggered flag is set. The main button never does that; the Space
  key and a direct call can.
\<close>

lemma rerender_exclusive:
  assumes "isTriggered s \<longrightarrow> countdown s = None"
  shows "isTriggered (rerender e prev s) \<longrightarrow> countdown (rerender e prev s) = None"
  using assms
  by (auto simp: rerender_def countdownEffect_def cleanup_fields startAlarm_def
      obtainLocation_def Let_def split: option.splits)

lemma exclusive_step:
  assumes "consistent s" and "isTriggered s \<longrightarrow> countdown s = None"
    and "ev \<in> {KeySpace, Intent Trigger} \<longrightarrow> \<not> isTriggered s"
  shows "isTriggered (step e s ev) \<longrightarrow> countdown (step e s ev) = None"
proof (cases ev)
  case (Intent i)
  with assms(2,3) have "isTriggered (perform e i s) \<longrightarrow> countdown (perform e i s) = None"
    by (cases i) (auto simp: arm_def disarm_def trigger_def cancelCountdown_def stop_def
        stopAlarm_def obtainLocation_def addLog_def Let_def)
  with Intent show ?thesis by (simp add: step_def rerender_exclusive)
next
  case Tick
  show ?thesis
  proof (cases "countdown s")
    case None
    with assms(1) have "pending s = []" by (simp add: consistent_None)
    with assms(2) Tick show ?thesis by (simp add: tick_idle)
  next
    case (Some c)
    with assms(2) have nt: "\<not> isTriggered s" by auto
    from assms(1) Some have c: "0 < c" by (rule consistent_Some)
    show ?thesis
    proof (cases "c = 1")
      case True
      with Some have "countdown s = Some 1" by simp
      from tick_reaches_zero [OF assms(1) this, of e] Tick show ?thesis
        by (simp add: startAlarm_def obtainLocation_def)
    next
      case False
      with c have "1 < c" by simp
      from tick_decrements [OF assms(1) Some this, of e] Tick nt show ?thesis by simp
    qed
  qed
next
  case KeyEscape
  with assms(2) have "isTriggered (handle e ev s) \<longrightarrow> countdown (handle e ev s) = None"
    by (auto simp: keyEscape_def cancelCountdown_def stop_def stopAlarm_def addLog_def Let_def)
  with KeyEscape show ?thesis by (simp add: step_def rerender_exclusive)
qed (use assms(2,3) in \<open>auto simp: step_def intro!: rerender_exclusive [THEN mp]
      simp: clickToggle_def clickMain_def keySpace_def arm_def disarm_def trigger_def
      cancelCountdown_def stop_def stopAlarm_def obtainLocation_def addLog_def Let_def
      positionSuccess_def positionError_def shareAlert_def copyMessage_def\<close>)

text \<open>
  Claim C1 says that the countdown is non-null exactly in the CountingDown mode. Arm,
  trigger and three ticks lead to the Triggered mode; \<open>trigger\<close> called there (as the
  Space key does) sets the countdown to 3 while the triggered flag stays set: the page shows
  the mode of an active alarm together with a running countdown.
\<close>

theorem C1_countdown_while_triggered:
  "mode (run browser initial [Intent Arm, Intent Trigger, Tick, Tick, Tick]) = Triggered \<and>
   isTriggered (run browser initial
     [Intent Arm, Intent Trigger, Tick, Tick, Tick, Intent Trigger]) \<and>
   countdown (run browser initial
     [Intent Arm, Intent Trigger, Tick, Tick, Tick, Intent Trigger]) = Some 3 \<and>
   mode (run browser initial
     [Intent Arm, Intent Trigger, Tick, Tick, Tick, Intent Trigger]) = Triggered"
  by (simp add: mode_def run_defs)

text \<open>
  Claim C2 says that \<open>trigger\<close> is a no-op in the CountingDown and Triggered modes. One
  second into a countdown it puts the countdown back from 2 to 3 and appends a second
  \<open>triggered\<close> entry; in the Triggered mode it starts a countdown and appends an entry as
  well. The Space key calls it in both modes, while the main button calls \<open>stop\<close> in the
  Triggered mode.
\<close>

theorem C2_trigger_is_not_idempotent:
  "mode (run browser initial [Intent Trigger, Tick]) = CountingDown \<and>
   countdown (run browser initial [Intent Trigger, Tick]) = Some 2 \<and>
   countdown (step browser (run browser initial [Intent Trigger, Tick]) (Intent Trigger)) = Some 3 \<and>
   map log_type (logs (run browser initial [Intent Trigger, Tick])) =
     [Log_triggered, Log_armed] \<and>
   map log_type (logs (step browser (run browser initial [Intent Trigger, Tick]) (Intent Trigger))) =
     [Log_triggered, Log_triggered, Log_armed] \<and>
   mode (run browser initial [Intent Trigger, Tick, Tick, Tick]) = Triggered \<and>
   countdown (run browser initial [Intent Trigger, Tick, Tick, Tick]) = None \<and>
   countdown (step browser (run browser initial [Intent Trigger, Tick, Tick, Tick])
     (Intent Trigger)) = Some 3 \<and>
   map log_type (logs (step browser (run browser initial [Intent Trigger, Tick, Tick, Tick])
     (Intent Trigger))) = [Log_triggered, Log_triggered, Log_armed] \<and>
   step browser (run browser initial [Intent Trigger, Tick, Tick, Tick]) KeySpace =
     step browser (run browser initial [Intent Trigger, Tick, Tick, Tick]) (Intent Trigger) \<and>
   step browser (run browser initial [Intent Trigger, Tick, Tick, Tick]) ClickMain =
     step browser (run browser initial [Intent Trigger, Tick, Tick, Tick]) (Intent Stop)"
  by (simp add: mode_def run_defs keySpace_def clickMain_def)

text \<open>
  Claim C4 as stated fails: in the Armed mode, where neither is permitted, \<open>stop\<close> and
  \<open>cancelCountdown\<close> each append a \<open>cancelled\<close> entry to the log.
\<close>

theorem C4_stop_appends_entry_counterexample:
  "mode (run browser initial [Intent Arm]) = Armed \<and>
   logs (step browser (run browser initial [Intent Arm]) (Intent Stop)) \<noteq>
     logs (run browser initial [Intent Arm]) \<and>
   map log_type (logs (step browser (run browser initial [Intent Arm]) (Intent Stop))) =
     [Log_cancelled, Log_armed] \<and>
   map log_type (logs (step browser (run browser initial [Intent Arm]) (Intent CancelCountdown))) =
     [Log_cancelled, Log_armed]"
  by (simp add: mode_def run_defs)

text \<open>
  Claim C4, amended. \<open>stop\<close> called while the triggered flag is clear, and
  \<open>cancelCountdown\<close> called while there is no countdown, leave the armed flag, the triggered
  flag, the countdown and the mode as they were, but each appends one \<open>cancelled\<close> entry.
  The controls do not issue them there: with the flag clear and no countdown the Escape key
  changes nothing at all and the main button triggers.
\<close>

theorem C4_unpermitted_stop_and_cancel:
  "(\<not> isTriggered s \<longrightarrow>
      isArmed (step e s (Intent Stop)) = isArmed s \<and>
      isTriggered (step e s (Intent Stop)) = isTriggered s \<and>
      countdown (step e s (Intent Stop)) = countdown s \<and>
      mode (step e s (Intent Stop)) = mode s \<and>
      logs (step e s (Intent Stop)) = newEntry e (draws s) Log_cancelled ''Alarm stopped'' # logs s) \<and>
   (countdown s = None \<longrightarrow>
      isArmed (step e s (Intent CancelCountdown)) = isArmed s \<and>
      isTriggered (step e s (Intent CancelCountdown)) = isTriggered s \<and>
      countdown (step e s (Intent CancelCountdown)) = countdown s \<and>
      mode (step e s (Intent CancelCountdown)) = mode s \<and>
      logs (step e s (Intent CancelCountdown)) =
        newEntry e (draws s) Log_cancelled ''Countdown cancelled'' # logs s) \<and>
   (\<not> isTriggered s \<and> countdown s = None \<longrightarrow>
      step e s KeyEscape = s \<and> step e s ClickMain = step e s (Intent Trigger))"
  by (simp add: step_def rerender_same mode_def stop_def cancelCountdown_def stopAlarm_def
      addLog_newEntry keyEscape_def clickMain_def)

theorem C4_unpermitted_stop_and_cancel_witness:
  "\<not> isTriggered (run browser initial [Intent Arm]) \<and>
   countdown (run browser initial [Intent Arm]) = None \<and>
   mode (step browser (run browser initial [Intent Arm]) (Intent Stop)) = Armed \<and>
   mode (step browser (run browser initial [Intent Arm]) (Intent CancelCountdown)) = Armed \<and>
   step browser (run browser initial [Intent Arm]) KeyEscape = run browser initial [Intent Arm]"
proof -
  let ?s = "run browser initial [Intent Arm]"
  have h: "\<not> isTriggered ?s" "countdown ?s = None" "mode ?s = Armed"
    by (simp_all add: mode_def run_defs)
  from C4_unpermitted_stop_and_cancel [of ?s browser] h show ?thesis by simp
qed

text \<open>
  Claim C8 as stated fails: two calls of \<open>arm\<close> in a row leave two \<open>armed\<close> entries in the
  log, and the state after the second call differs from the state after the first.
\<close>

theorem C8_second_arm_logs_counterexample:
  "map log_type (logs (run browser initial [Intent Arm])) = [Log_armed] \<and>
   map log_type (logs (run browser initial [Intent Arm, Intent Arm])) = [Log_armed, Log_armed] \<and>
   run browser initial [Intent Arm, Intent Arm] \<noteq> run browser initial [Intent Arm]"
proof -
  have l: "map log_type (logs (run browser initial [Intent Arm])) = [Log_armed]"
      "map log_type (logs (run browser initial [Intent Arm, Intent Arm])) = [Log_armed, Log_armed]"
    by (simp_all add: run_defs)
  then have "run browser initial [Intent Arm, Intent Arm] \<noteq> run browser initial [Intent Arm]"
    by (metis list.inject not_Cons_self2)
  with l show ?thesis by simp
qed

text \<open>
  Claim C8, amended. A second \<open>arm\<close> right after the first leaves the armed flag, the
  triggered flag, the countdown, the mode and the stored coordinate as the first call left
  them, but it appends a second \<open>armed\<close> entry (two across the two calls) and asks for
  the location again. The arm/disarm button does not issue it: once armed it disarms.
\<close>

theorem C8_second_arm:
  "isArmed (run e s [Intent Arm, Intent Arm]) = isArmed (run e s [Intent Arm]) \<and>
   isTriggered (run e s [Intent Arm, Intent Arm]) = isTriggered (run e s [Intent Arm]) \<and>
   countdown (run e s [Intent Arm, Intent Arm]) = countdown (run e s [Intent Arm]) \<and>
   mode (run e s [Intent Arm, Intent Arm]) = mode (run e s [Intent Arm]) \<and>
   coords (run e s [Intent Arm, Intent Arm]) = coords (run e s [Intent Arm]) \<and>
   logs (run e s [Intent Arm]) = newEntry e (draws s) Log_armed ''System armed'' # logs s \<and>
   logs (run e s [Intent Arm, Intent Arm]) =
     newEntry e (Suc (draws s)) Log_armed ''System armed'' #
     newEntry e (draws s) Log_armed ''System armed'' # logs s \<and>
   geoPending (run e s [Intent Arm, Intent Arm]) =
     geoPending s + (if hasGeolocation e then 2 else 0) \<and>
   step e (run e s [Intent Arm]) ClickToggle = step e (run e s [Intent Arm]) (Intent Disarm)"
  by (simp add: step_def rerender_same mode_def arm_def obtainLocation_def addLog_newEntry
      clickToggle_def)

end
